theory Spec2Isabelle
  imports Main "HOL-Library.Multiset"
begin

section \<open>The task list controller of ExerciseTaskList.tsx\<close>

text \<open>
  The React component \<^verbatim>\<open>ExerciseTaskList\<close> keeps its state in \<^verbatim>\<open>useState\<close> cells and
  changes it in event handlers. The embedding makes the cells the fields of one record and
  every handler a function from the record to the updated record. An \<^verbatim>\<open>async\<close> handler is
  cut at its \<^verbatim>\<open>await\<close>: the part before it (\<open>_begin\<close>) returns the values the closure
  captured, the part after it (\<open>_settle\<close>) takes them back together with the outcome of the
  request and the state as it is when the request settles.
\<close>

subsection \<open>Data\<close>

datatype TaskStatus = UPCOMING | IN_PROGRESS | COMPLETED

datatype TaskPriority = LOW | MEDIUM | HIGH

text \<open>
  The interface \<^verbatim>\<open>ExampleTask\<close>. Its field \<^verbatim>\<open>id\<close> is \<open>task_id\<close> here (\<open>id\<close> is the
  identity function of HOL); the dates are the strings of the JSON.
\<close>

record ExampleTask =
  task_id :: string
  name :: string
  assignedToName :: "string option"
  assignedToAvatar :: "string option"
  dueDate :: "string option"
  status :: TaskStatus
  priority :: TaskPriority
  createdAt :: string
  updatedAt :: string

text \<open>
  The object held by \<^verbatim>\<open>formData\<close> and the body of the POST request; both have the
  fields \<^verbatim>\<open>name\<close> and \<^verbatim>\<open>priority\<close>, prefixed here to keep them apart from the task's.
\<close>

record form_data =
  form_name :: string
  form_priority :: TaskPriority

record create_payload =
  payload_name :: string
  payload_priority :: TaskPriority

text \<open>
  What a \<^verbatim>\<open>catch\<close> clause receives: an \<^verbatim>\<open>Error\<close> instance with its message, or any other
  thrown value. A request resolves with a value or rejects with a thrown value.
\<close>

datatype thrown = ErrorInstance string | NonError

datatype 'a fetch_result = Resolved 'a | Rejected thrown

text \<open>The state cells of the component, in the order of their declaration.\<close>

record controller =
  tasks :: "ExampleTask list"
  isLoading :: bool
  error :: "string option"
  showIntroAlert :: bool
  showCreateModal :: bool
  isCreating :: bool
  createError :: "string option"
  formData :: form_data
  validationErrors :: "string \<rightharpoonup> string"
  deletingTasks :: "string set"
  showDeleteModal :: bool
  taskToDelete :: "ExampleTask option"
  deleteError :: "string option"

definition initial_controller :: controller where
  "initial_controller =
     \<lparr>tasks = [], isLoading = True, error = None, showIntroAlert = True,
      showCreateModal = False, isCreating = False, createError = None,
      formData = \<lparr>form_name = [], form_priority = MEDIUM\<rparr>,
      validationErrors = Map.empty,
      deletingTasks = {}, showDeleteModal = False, taskToDelete = None,
      deleteError = None\<rparr>"

subsection \<open>The three boards\<close>

definition upcomingTasks :: "controller \<Rightarrow> ExampleTask list" where
  "upcomingTasks s = filter (\<lambda>task. status task = UPCOMING) (tasks s)"

definition inProgressTasks :: "controller \<Rightarrow> ExampleTask list" where
  "inProgressTasks s = filter (\<lambda>task. status task = IN_PROGRESS) (tasks s)"

definition completedTasks :: "controller \<Rightarrow> ExampleTask list" where
  "completedTasks s = filter (\<lambda>task. status task = COMPLETED) (tasks s)"

text \<open>The list handed to the board titled with \<^verbatim>\<open>statusMap[st]\<close>.\<close>

fun board :: "TaskStatus \<Rightarrow> controller \<Rightarrow> ExampleTask list" where
  "board UPCOMING s = upcomingTasks s"
| "board IN_PROGRESS s = inProgressTasks s"
| "board COMPLETED s = completedTasks s"

subsection \<open>Strings\<close>

text \<open>
  \<^verbatim>\<open>String.prototype.trim\<close> removes white space and line terminators from both ends.
  A \<open>char\<close> is a byte, so the set is its members below 256: TAB, LF, VT, FF, CR, SP and
  NBSP.
\<close>

definition isWhitespace :: "char \<Rightarrow> bool" where
  "isWhitespace c =
     (c \<in> set [CHR 0x09, CHR 0x0A, CHR 0x0B, CHR 0x0C, CHR 0x0D, CHR 0x20, CHR 0xA0])"

definition trim :: "string \<Rightarrow> string" where
  "trim s = rev (dropWhile isWhitespace (rev (dropWhile isWhitespace s)))"

fun startsWith :: "string \<Rightarrow> string \<Rightarrow> bool" where
  "startsWith s [] = True"
| "startsWith [] (c # cs) = False"
| "startsWith (x # xs) (c # cs) = (x = c \<and> startsWith xs cs)"

text \<open>\<^verbatim>\<open>s.includes(sub)\<close>: \<open>sub\<close> occurs in \<open>s\<close> as a contiguous run.\<close>

fun includes_str :: "string \<Rightarrow> string \<Rightarrow> bool" where
  "includes_str [] sub = (sub = [])"
| "includes_str (x # xs) sub = (startsWith (x # xs) sub \<or> includes_str xs sub)"

text \<open>
  A \<^verbatim>\<open>string | null\<close> used as a condition (\<^verbatim>\<open>{createError && ...}\<close>, \<^verbatim>\<open>if (createError)\<close>):
  \<^verbatim>\<open>null\<close>, \<^verbatim>\<open>undefined\<close> and the empty string are falsy.
\<close>

fun truthy :: "string option \<Rightarrow> bool" where
  "truthy None = False"
| "truthy (Some m) = (m \<noteq> [])"

subsection \<open>Loading\<close>

definition loadTasks_begin :: "controller \<Rightarrow> controller" where
  "loadTasks_begin s = s\<lparr>isLoading := True, error := None\<rparr>"

definition loadTasks_settle :: "ExampleTask list option fetch_result \<Rightarrow> controller \<Rightarrow> controller" where
  "loadTasks_settle r s =
     (case r of
        Resolved fetchedTasks \<Rightarrow>
          s\<lparr>tasks := (case fetchedTasks of Some ts \<Rightarrow> ts | None \<Rightarrow> [])\<rparr>
      | Rejected (ErrorInstance message) \<Rightarrow> s\<lparr>error := Some message, tasks := []\<rparr>
      | Rejected NonError \<Rightarrow> s\<lparr>error := Some ''Failed to fetch tasks'', tasks := []\<rparr>)
     \<lparr>isLoading := False\<rparr>"

subsection \<open>The create form\<close>

definition resetForm :: "controller \<Rightarrow> controller" where
  "resetForm s =
     s\<lparr>formData := \<lparr>form_name = [], form_priority = MEDIUM\<rparr>,
       validationErrors := Map.empty,
       createError := None\<rparr>"

definition handleNewTask :: "controller \<Rightarrow> controller" where
  "handleNewTask s = (resetForm s)\<lparr>showCreateModal := True\<rparr>"

definition handleCloseModal :: "controller \<Rightarrow> controller" where
  "handleCloseModal s = resetForm (s\<lparr>showCreateModal := False\<rparr>)"

text \<open>
  \<^verbatim>\<open>validateForm\<close> stores the errors it found and returns whether there are none.
\<close>

definition validateForm :: "controller \<Rightarrow> bool \<times> controller" where
  "validateForm s =
     (let errors = (if trim (form_name (formData s)) = []
                    then [''name'' \<mapsto> ''Task name is required'']
                    else Map.empty)
      in (dom errors = {}, s\<lparr>validationErrors := errors\<rparr>))"

text \<open>
  \<^verbatim>\<open>handleInputChange(field, value)\<close> has two call sites: the text input calls it with
  \<^verbatim>\<open>'name'\<close> and the text typed, the select with \<^verbatim>\<open>'priority'\<close> and one of its three
  options. An option is one of the strings \<^verbatim>\<open>LOW\<close>, \<^verbatim>\<open>MEDIUM\<close>, \<^verbatim>\<open>HIGH\<close>, which
  \<^verbatim>\<open>trim\<close> leaves as they are.
\<close>

datatype form_input = NameInput string | PriorityInput TaskPriority

fun field_of :: "form_input \<Rightarrow> string" where
  "field_of (NameInput v) = ''name''"
| "field_of (PriorityInput v) = ''priority''"

definition handleInputChange :: "form_input \<Rightarrow> controller \<Rightarrow> controller" where
  "handleInputChange inp s =
     (let s1 = s\<lparr>formData :=
                   (case inp of
                      NameInput v \<Rightarrow> (formData s)\<lparr>form_name := trim v\<rparr>
                    | PriorityInput v \<Rightarrow> (formData s)\<lparr>form_priority := v\<rparr>)\<rparr>;
          s2 = (if truthy (createError s) then s1\<lparr>createError := None\<rparr> else s1)
      in if truthy (validationErrors s (field_of inp))
         then s2\<lparr>validationErrors := (validationErrors s2)(field_of inp \<mapsto> [])\<rparr>
         else s2)"

text \<open>
  \<^verbatim>\<open>createTask\<close> up to its \<^verbatim>\<open>await\<close>: the payload of the request it issues, or \<open>None\<close>
  when it returns before issuing one.
\<close>

definition createTask_begin :: "controller \<Rightarrow> create_payload option \<times> controller" where
  "createTask_begin s =
     (case validateForm s of
        (ok, s1) \<Rightarrow>
          if \<not> ok then (None, s1)
          else (Some \<lparr>payload_name = trim (form_name (formData s)),
                      payload_priority = form_priority (formData s)\<rparr>,
                s1\<lparr>isCreating := True, createError := None\<rparr>))"

text \<open>
  \<^verbatim>\<open>createTask\<close> from the \<^verbatim>\<open>await\<close> on. The request resolves with a task, resolves with a
  falsy value (\<open>None\<close>) or rejects.
\<close>

definition createTask_settle :: "ExampleTask option fetch_result \<Rightarrow> controller \<Rightarrow> controller" where
  "createTask_settle r s =
     (case r of
        Resolved (Some response) \<Rightarrow> handleCloseModal (s\<lparr>tasks := tasks s @ [response]\<rparr>)
      | Resolved None \<Rightarrow> s\<lparr>createError := Some ''Failed to create task''\<rparr>
      | Rejected (ErrorInstance message) \<Rightarrow> s\<lparr>createError := Some message\<rparr>
      | Rejected NonError \<Rightarrow> s\<lparr>createError := Some ''Failed to create task''\<rparr>)
     \<lparr>isCreating := False\<rparr>"

text \<open>The whole handler when nothing else happens while the request is under way.\<close>

definition createTask :: "ExampleTask option fetch_result \<Rightarrow> controller \<Rightarrow> controller" where
  "createTask r s =
     (case createTask_begin s of
        (None, s1) \<Rightarrow> s1
      | (Some payload, s1) \<Rightarrow> createTask_settle r s1)"

subsection \<open>Deleting\<close>

definition handleDeleteTask :: "ExampleTask \<Rightarrow> controller \<Rightarrow> controller" where
  "handleDeleteTask task s =
     s\<lparr>taskToDelete := Some task, deleteError := None, showDeleteModal := True\<rparr>"

definition handleCloseDeleteModal :: "controller \<Rightarrow> controller" where
  "handleCloseDeleteModal s =
     s\<lparr>showDeleteModal := False, taskToDelete := None, deleteError := None\<rparr>"

text \<open>
  \<^verbatim>\<open>deleteTask\<close> up to its \<^verbatim>\<open>await\<close>: the task the closure holds in \<^verbatim>\<open>taskToDelete\<close>, or
  \<open>None\<close> when the handler returns at once.
\<close>

definition deleteTask_begin :: "controller \<Rightarrow> ExampleTask option \<times> controller" where
  "deleteTask_begin s =
     (case taskToDelete s of
        None \<Rightarrow> (None, s)
      | Some t \<Rightarrow>
          (Some t,
           s\<lparr>deletingTasks := insert (task_id t) (deletingTasks s),
             deleteError := None,
             tasks := filter (\<lambda>task. task_id task \<noteq> task_id t) (tasks s)\<rparr>))"

text \<open>The test of the first branch of the \<^verbatim>\<open>catch\<close> clause.\<close>

fun isNotFound :: "thrown \<Rightarrow> bool" where
  "isNotFound (ErrorInstance message) =
     (includes_str message ''404'' \<or> includes_str message ''not found'')"
| "isNotFound NonError = False"

text \<open>\<^verbatim>\<open>errorMessage\<close> as the other branches leave it.\<close>

fun deleteErrorMessage :: "thrown \<Rightarrow> string" where
  "deleteErrorMessage (ErrorInstance message) =
     (if includes_str message ''500'' \<or> includes_str message ''server''
      then ''Server error occurred. Please try again later.''
      else if includes_str message ''network'' \<or> includes_str message ''fetch''
      then ''Network error. Please check your connection and try again.''
      else message)"
| "deleteErrorMessage NonError = ''Failed to delete task. Please try again.''"

text \<open>
  What the rollback uses of the JavaScript runtime. \<open>getTime\<close> is
  \<^verbatim>\<open>new Date(createdAt).getTime()\<close>: a number of milliseconds, or \<^verbatim>\<open>NaN\<close>, here \<open>None\<close>, for
  a string that does not parse as a date. The comparator of the rollback is the difference
  of two such numbers, and is \<^verbatim>\<open>NaN\<close> as soon as one of them is.
  \<^verbatim>\<open>Array.prototype.sort\<close> is stable, as \<open>sort_key\<close> is, when the comparator is
  consistent; for a comparator that returns \<^verbatim>\<open>NaN\<close> the standard leaves the order to the
  engine, and \<open>sortInconsistent\<close> is the list the engine returns then.
\<close>

record runtime =
  getTime :: "string \<Rightarrow> int option"
  sortInconsistent :: "ExampleTask list \<Rightarrow> ExampleTask list"

text \<open>
  The expression \<^verbatim>\<open>xs.sort((a, b) => new Date(a.createdAt).getTime() - new Date(b.createdAt).getTime())\<close>.
  A list with a date that does not parse is handed to the engine's order whole, also
  where the engine would have no choice to make.
\<close>

definition sortByCreatedAt :: "runtime \<Rightarrow> ExampleTask list \<Rightarrow> ExampleTask list" where
  "sortByCreatedAt rt xs =
     (if list_all (\<lambda>a. getTime rt (createdAt a) \<noteq> None) xs
      then sort_key (\<lambda>a. the (getTime rt (createdAt a))) xs
      else sortInconsistent rt xs)"

text \<open>
  \<^verbatim>\<open>deleteTask\<close> from the \<^verbatim>\<open>await\<close> on, for the captured task. The last update is the
  \<^verbatim>\<open>finally\<close> clause.
\<close>

definition deleteTask_settle ::
  "runtime \<Rightarrow> ExampleTask \<Rightarrow> unit fetch_result \<Rightarrow> controller \<Rightarrow> controller" where
  "deleteTask_settle rt captured r s =
     (let taskId = task_id captured;
          s1 = (case r of
                  Resolved u \<Rightarrow> handleCloseDeleteModal s
                | Rejected err \<Rightarrow>
                    if isNotFound err then handleCloseDeleteModal s
                    else s\<lparr>tasks := sortByCreatedAt rt (tasks s @ [captured]),
                           deleteError := Some (deleteErrorMessage err)\<rparr>)
      in s1\<lparr>deletingTasks := deletingTasks s1 - {taskId}\<rparr>)"

definition deleteTask :: "runtime \<Rightarrow> unit fetch_result \<Rightarrow> controller \<Rightarrow> controller" where
  "deleteTask rt r s =
     (case deleteTask_begin s of
        (None, s1) \<Rightarrow> s1
      | (Some captured, s1) \<Rightarrow> deleteTask_settle rt captured r s1)"

subsection \<open>What the view shows\<close>

text \<open>The \<^verbatim>\<open>disabled\<close> attributes and the conditions of the alerts.\<close>

definition rowControlsDisabled :: "controller \<Rightarrow> ExampleTask \<Rightarrow> bool" where
  "rowControlsDisabled s task = (task_id task \<in> deletingTasks s)"

definition deleteCancelDisabled :: "controller \<Rightarrow> bool" where
  "deleteCancelDisabled s =
     (case taskToDelete s of Some t \<Rightarrow> task_id t \<in> deletingTasks s | None \<Rightarrow> False)"

definition deleteConfirmDisabled :: "controller \<Rightarrow> bool" where
  "deleteConfirmDisabled s =
     (case taskToDelete s of Some t \<Rightarrow> task_id t \<in> deletingTasks s | None \<Rightarrow> True)"

definition createCancelDisabled :: "controller \<Rightarrow> bool" where
  "createCancelDisabled s = isCreating s"

definition createSubmitDisabled :: "controller \<Rightarrow> bool" where
  "createSubmitDisabled s = (isCreating s \<or> trim (form_name (formData s)) = [])"


definition deleteAlertShown :: "controller \<Rightarrow> bool" where
  "deleteAlertShown s = truthy (deleteError s)"


subsection \<open>The controller with its requests under way\<close>

text \<open>
  A run of the component is a sequence of events: the user acts on a control that is not
  disabled, or a request that is under way settles. The system state is the controller
  together with the requests issued and not yet settled, each with what its closure
  captured. An event that cannot happen in a state yields \<open>None\<close>. Whether the control is
  on screen at that moment is not asked, which allows more runs, not fewer. The View
  button leaves the page and is no event here.
\<close>

record system =
  ui :: controller
  loadPending :: bool
  pendingCreates :: "create_payload list"
  pendingDeletes :: "ExampleTask list"

definition initial_system :: system where
  "initial_system =
     \<lparr>ui = loadTasks_begin initial_controller, loadPending = True,
      pendingCreates = [], pendingDeletes = []\<rparr>"

datatype event =
    LoadSettled "ExampleTask list option fetch_result"
  | DismissIntroAlert
  | ClickNewTask
  | HideCreateModal
  | ClickCancelCreate
  | ChangeInput form_input
  | ClickCreateTask
  | CreateSettled create_payload "ExampleTask option fetch_result"
  | ClickDeleteRow ExampleTask
  | HideDeleteModal
  | ClickCancelDelete
  | ClickConfirmDelete
  | DeleteSettled ExampleTask "unit fetch_result"

fun fire :: "runtime \<Rightarrow> event \<Rightarrow> system \<Rightarrow> system option" where
  "fire rt (LoadSettled r) sys =
     (if loadPending sys
      then Some (sys\<lparr>ui := loadTasks_settle r (ui sys), loadPending := False\<rparr>)
      else None)"
| "fire rt DismissIntroAlert sys = Some (sys\<lparr>ui := (ui sys)\<lparr>showIntroAlert := False\<rparr>\<rparr>)"
| "fire rt ClickNewTask sys = Some (sys\<lparr>ui := handleNewTask (ui sys)\<rparr>)"
| "fire rt HideCreateModal sys = Some (sys\<lparr>ui := handleCloseModal (ui sys)\<rparr>)"
| "fire rt ClickCancelCreate sys =
     (if createCancelDisabled (ui sys) then None
      else Some (sys\<lparr>ui := handleCloseModal (ui sys)\<rparr>))"
| "fire rt (ChangeInput inp) sys = Some (sys\<lparr>ui := handleInputChange inp (ui sys)\<rparr>)"
| "fire rt ClickCreateTask sys =
     (if createSubmitDisabled (ui sys) then None
      else (case createTask_begin (ui sys) of
              (None, s1) \<Rightarrow> Some (sys\<lparr>ui := s1\<rparr>)
            | (Some payload, s1) \<Rightarrow>
                Some (sys\<lparr>ui := s1, pendingCreates := pendingCreates sys @ [payload]\<rparr>)))"
| "fire rt (CreateSettled payload r) sys =
     (if payload \<in> set (pendingCreates sys)
      then Some (sys\<lparr>ui := createTask_settle r (ui sys),
                     pendingCreates := remove1 payload (pendingCreates sys)\<rparr>)
      else None)"
| "fire rt (ClickDeleteRow task) sys =
     (if task \<in> set (tasks (ui sys)) \<and> \<not> rowControlsDisabled (ui sys) task
      then Some (sys\<lparr>ui := handleDeleteTask task (ui sys)\<rparr>)
      else None)"
| "fire rt HideDeleteModal sys = Some (sys\<lparr>ui := handleCloseDeleteModal (ui sys)\<rparr>)"
| "fire rt ClickCancelDelete sys =
     (if deleteCancelDisabled (ui sys) then None
      else Some (sys\<lparr>ui := handleCloseDeleteModal (ui sys)\<rparr>))"
| "fire rt ClickConfirmDelete sys =
     (if deleteConfirmDisabled (ui sys) then None
      else (case deleteTask_begin (ui sys) of
              (None, s1) \<Rightarrow> Some (sys\<lparr>ui := s1\<rparr>)
            | (Some captured, s1) \<Rightarrow>
                Some (sys\<lparr>ui := s1, pendingDeletes := pendingDeletes sys @ [captured]\<rparr>)))"
| "fire rt (DeleteSettled captured r) sys =
     (if captured \<in> set (pendingDeletes sys)
      then Some (sys\<lparr>ui := deleteTask_settle rt captured r (ui sys),
                     pendingDeletes := remove1 captured (pendingDeletes sys)\<rparr>)
      else None)"

fun run :: "runtime \<Rightarrow> event list \<Rightarrow> system \<Rightarrow> system option" where
  "run rt [] sys = Some sys"
| "run rt (e # es) sys =
     (case fire rt e sys of None \<Rightarrow> None | Some sys' \<Rightarrow> run rt es sys')"

text \<open>The ids whose delete request is under way, one entry for each request.\<close>

definition inFlightDeletes :: "system \<Rightarrow> string list" where
  "inFlightDeletes sys = map task_id (pendingDeletes sys)"

section \<open>Operations that are not in the sources\<close>

subsection \<open>The optimistic update\<close>

text \<open>
  Modelled from the spec: the fields a partial update may carry (section 3: any subset of
  name, status and priority; the task of the list view has no description). The component
  has no update handler in its source, so the update mutation of section 4.3 is written
  here from the spec's words.
\<close>

record task_patch =
  patch_name :: "string option"
  patch_status :: "TaskStatus option"
  patch_priority :: "TaskPriority option"

text \<open>
  Modelled from the spec: the state the update mutation works on, the local collection, the
  "updating" set and the surfaced error; no handler in the sources holds it.
\<close>

record update_controller =
  local_tasks :: "ExampleTask list"
  updatingTasks :: "string set"
  updateError :: "string option"

text \<open>
  Modelled from the spec: the three ways an update request ends (section 4.3: success,
  failure, or exception), a failure and an exception with their message; the request is
  issued by the missing handler.
\<close>

datatype update_outcome =
    UpdateSucceeded ExampleTask
  | UpdateFailed string
  | UpdateException string

text \<open>
  Modelled from the spec: the speculative value of a record, the missing handler's local
  mutation; the fields the patch names are replaced.
\<close>

definition apply_patch :: "task_patch \<Rightarrow> ExampleTask \<Rightarrow> ExampleTask" where
  "apply_patch p t =
     t\<lparr>name := (case patch_name p of None \<Rightarrow> name t | Some n \<Rightarrow> n),
       status := (case patch_status p of None \<Rightarrow> status t | Some st \<Rightarrow> st),
       priority := (case patch_priority p of None \<Rightarrow> priority t | Some pr \<Rightarrow> pr)\<rparr>"

text \<open>
  Modelled from the spec: the first half of the missing update handler, "immediately
  mutate the local copy of the record (Pending, record id added to an updating set)". It
  returns the pre-mutation snapshot, taken before the request is issued (section 9).
\<close>

definition updateTask_begin ::
  "string \<Rightarrow> task_patch \<Rightarrow> update_controller \<Rightarrow> ExampleTask option \<times> update_controller" where
  "updateTask_begin taskId p c =
     (find (\<lambda>t. task_id t = taskId) (local_tasks c),
      c\<lparr>local_tasks := map (\<lambda>t. if task_id t = taskId then apply_patch p t else t) (local_tasks c),
        updatingTasks := insert taskId (updatingTasks c)\<rparr>)"

text \<open>
  Modelled from the spec: replacing the local copy of the record with the given id, used by
  both ends of the missing update handler.
\<close>

definition put_record :: "string \<Rightarrow> ExampleTask option \<Rightarrow> ExampleTask list \<Rightarrow> ExampleTask list" where
  "put_record taskId new ts =
     (case new of
        None \<Rightarrow> ts
      | Some t' \<Rightarrow> map (\<lambda>t. if task_id t = taskId then t' else t) ts)"

text \<open>
  Modelled from the spec: the second half of the missing update handler, "on success,
  replace local copy with server-returned Task, clear Pending. On failure, revert the local
  copy to the pre-mutation snapshot (RolledBack) and surface the error; the id is removed
  from the updating set in all cases".
\<close>

definition updateTask_settle ::
  "string \<Rightarrow> ExampleTask option \<Rightarrow> update_outcome \<Rightarrow> update_controller \<Rightarrow> update_controller" where
  "updateTask_settle taskId snapshot r c =
     (case r of
        UpdateSucceeded returned \<Rightarrow>
          c\<lparr>local_tasks := put_record taskId (Some returned) (local_tasks c)\<rparr>
      | UpdateFailed message \<Rightarrow>
          c\<lparr>local_tasks := put_record taskId snapshot (local_tasks c), updateError := Some message\<rparr>
      | UpdateException message \<Rightarrow>
          c\<lparr>local_tasks := put_record taskId snapshot (local_tasks c), updateError := Some message\<rparr>)
     \<lparr>updatingTasks := updatingTasks c - {taskId}\<rparr>"

text \<open>
  Modelled from the spec: the missing update handler as a whole, from the mutation to the
  reconciliation.
\<close>

definition updateTask ::
  "string \<Rightarrow> task_patch \<Rightarrow> update_outcome \<Rightarrow> update_controller \<Rightarrow> update_controller" where
  "updateTask taskId p r c =
     (case updateTask_begin taskId p c of (snapshot, c1) \<Rightarrow> updateTask_settle taskId snapshot r c1)"

text \<open>
  Modelled from the spec: the patch of the testable property of section 8, "triggering an
  update to HIGH", handed to the missing handler.
\<close>

definition raise_priority :: task_patch where
  "raise_priority = \<lparr>patch_name = None, patch_status = None, patch_priority = Some HIGH\<rparr>"

subsection \<open>The create operation of the service\<close>

text \<open>
  Modelled from the spec: the Task entity of section 3 as the service stores it; the
  service and its schema (\<^verbatim>\<open>exampleTask.service.ts\<close>, \<^verbatim>\<open>schema.prisma\<close>) are not among
  the sources.
\<close>

record Task =
  t_id :: string
  t_name :: string
  t_description :: "string option"
  t_status :: TaskStatus
  t_priority :: TaskPriority
  t_createdAt :: string
  t_updatedAt :: string

text \<open>
  Modelled from the spec: the input of \<^verbatim>\<open>create(input: {name, description?, priority?})\<close>
  of the missing service; a missing field is \<open>None\<close>.
\<close>

record create_input =
  input_name :: "string option"
  input_description :: "string option"
  input_priority :: "TaskPriority option"

text \<open>
  Modelled from the spec: the error taxonomy of section 7, raised by the missing service.
\<close>

datatype service_error = ValidationError | NotFound | StorageFailure

text \<open>
  Modelled from the spec: the id generator of the missing store ("generated id ... distinct
  from all existing ids"). The spec leaves the ids opaque; this generator returns a string
  longer than every id in use.
\<close>

definition generate_id :: "string list \<Rightarrow> string" where
  "generate_id ids = replicate (Suc (foldr max (map length ids) 0)) CHR ''0''"

text \<open>
  Modelled from the spec: \<^verbatim>\<open>create\<close> of the missing service, "fails with ValidationError
  if name missing/empty; otherwise produces a new Task with generated id, default status
  UPCOMING, and provided/defaulted priority" (default MEDIUM, section 3). The timestamps are
  the store's clock \<open>now\<close>. It returns the task and the store with the task added.
\<close>

definition service_create ::
  "string \<Rightarrow> Task list \<Rightarrow> create_input \<Rightarrow> service_error + Task \<times> Task list" where
  "service_create now store inp =
     (case input_name inp of
        None \<Rightarrow> Inl ValidationError
      | Some n \<Rightarrow>
          if trim n = [] then Inl ValidationError
          else (let task = \<lparr>t_id = generate_id (map t_id store), t_name = n,
                             t_description = input_description inp,
                             t_status = UPCOMING,
                             t_priority = (case input_priority inp of None \<Rightarrow> MEDIUM | Some p \<Rightarrow> p),
                             t_createdAt = now, t_updatedAt = now\<rparr>
                in Inr (task, store @ [task])))"

section \<open>Worked inputs\<close>

text \<open>
  Three tasks, a controller that has loaded them, and a runtime for them: the examples
  write a creation time as a string of decimal digits, which \<open>example_getTime\<close> reads,
  and the engine of the examples leaves a list it cannot order as it is.
\<close>

definition example_task :: "string \<Rightarrow> TaskStatus \<Rightarrow> TaskPriority \<Rightarrow> string \<Rightarrow> ExampleTask" where
  "example_task i st p created =
     \<lparr>task_id = i, name = ''Task '' @ i, assignedToName = None, assignedToAvatar = None,
      dueDate = None, status = st, priority = p, createdAt = created, updatedAt = created\<rparr>"

definition task_a :: ExampleTask where
  "task_a = example_task ''a'' UPCOMING LOW ''1''"

definition task_b :: ExampleTask where
  "task_b = example_task ''b'' IN_PROGRESS MEDIUM ''2''"

definition task_c :: ExampleTask where
  "task_c = example_task ''c'' COMPLETED HIGH ''3''"

definition example_getTime :: "string \<Rightarrow> int option" where
  "example_getTime s =
     (if s \<noteq> [] \<and> list_all (\<lambda>c. c \<in> set ''0123456789'') s
      then Some (foldl (\<lambda>n c. 10 * n + (int (of_char c) - 48)) 0 s)
      else None)"

definition example_runtime :: runtime where
  "example_runtime = \<lparr>getTime = example_getTime, sortInconsistent = (\<lambda>xs. xs)\<rparr>"

definition loaded_controller :: controller where
  "loaded_controller = loadTasks_settle (Resolved (Some [task_a, task_b, task_c])) initial_controller"

definition delete_dialog_open :: controller where
  "delete_dialog_open = handleDeleteTask task_b loaded_controller"

definition task_d :: ExampleTask where
  "task_d = example_task ''d'' UPCOMING HIGH ''4''"

definition form_filled :: controller where
  "form_filled =
     handleInputChange (NameInput ''  Write spec '')
       (handleInputChange (PriorityInput HIGH) (handleNewTask loaded_controller))"

definition create_events :: "event list" where
  "create_events =
     [LoadSettled (Resolved (Some [task_a, task_b, task_c])), ClickNewTask,
      ChangeInput (NameInput ''  Write spec ''), ClickCreateTask]"

definition example_events :: "event list" where
  "example_events =
     [LoadSettled (Resolved (Some [task_a, task_b, task_c])), ClickDeleteRow task_b,
      ClickConfirmDelete]"

definition example_update_controller :: update_controller where
  "example_update_controller =
     \<lparr>local_tasks = [task_a, task_b, task_c], updatingTasks = {}, updateError = None\<rparr>"

definition example_input :: create_input where
  "example_input =
     \<lparr>input_name = Some ''Write spec'', input_description = None, input_priority = Some HIGH\<rparr>"



section \<open>Properties\<close>

lemma board_filter: "board st s = filter (\<lambda>task. status task = st) (tasks s)"
  by (cases st) (simp_all add: upcomingTasks_def inProgressTasks_def completedTasks_def)

lemma mset_three_filters:
  "mset (filter (\<lambda>t. status t = UPCOMING) xs) + mset (filter (\<lambda>t. status t = IN_PROGRESS) xs)
     + mset (filter (\<lambda>t. status t = COMPLETED) xs) = mset xs"
proof (induction xs)
  case Nil
  show ?case by simp
next
  case (Cons x xs)
  then show ?case by (cases "status x") simp_all
qed

text \<open>
  Claim C8. The three boards partition the task collection. Taken together, with
  multiplicity, the boards hold exactly the tasks of the collection, so none is dropped or
  shown twice; a task occurs on the board of its own status as often as in the collection
  and on no other board; and every board lists its tasks in the order of the collection.
\<close>

theorem boards_partition_tasks:
  "mset (upcomingTasks s) + mset (inProgressTasks s) + mset (completedTasks s) = mset (tasks s)
   \<and> count (mset (board st s)) t = (if status t = st then count (mset (tasks s)) t else 0)
   \<and> board st s = filter (\<lambda>task. status task = st) (tasks s)"
proof -
  have "mset (upcomingTasks s) + mset (inProgressTasks s) + mset (completedTasks s) = mset (tasks s)"
    unfolding upcomingTasks_def inProgressTasks_def completedTasks_def
    by (rule mset_three_filters)
  moreover have "count (mset (board st s)) t = (if status t = st then count (mset (tasks s)) t else 0)"
    by (simp add: board_filter)
  ultimately show ?thesis
    using board_filter by blast
qed

theorem boards_partition_tasks_witness:
  "upcomingTasks loaded_controller = [task_a]
   \<and> inProgressTasks loaded_controller = [task_b]
   \<and> completedTasks loaded_controller = [task_c]
   \<and> mset [task_a] + mset [task_b] + mset [task_c] = mset (tasks loaded_controller)"
proof -
  have t: "tasks loaded_controller = [task_a, task_b, task_c]"
    by (simp add: loaded_controller_def loadTasks_settle_def)
  have st: "status task_a = UPCOMING" "status task_b = IN_PROGRESS" "status task_c = COMPLETED"
    by (simp_all add: task_a_def task_b_def task_c_def example_task_def)
  have u: "upcomingTasks loaded_controller = [task_a]"
    using boards_partition_tasks [of loaded_controller UPCOMING] by (simp add: t st)
  have i: "inProgressTasks loaded_controller = [task_b]"
    using boards_partition_tasks [of loaded_controller IN_PROGRESS] by (simp add: t st)
  have c: "completedTasks loaded_controller = [task_c]"
    using boards_partition_tasks [of loaded_controller COMPLETED] by (simp add: t st)
  from u i c boards_partition_tasks [of loaded_controller] show ?thesis
    by simp
qed

subsection \<open>Deleting a task\<close>

lemma deleteTask_begin_Some:
  "taskToDelete s = Some t \<Longrightarrow>
   deleteTask_begin s =
     (Some t, s\<lparr>deletingTasks := insert (task_id t) (deletingTasks s), deleteError := None,
        tasks := filter (\<lambda>task. task_id task \<noteq> task_id t) (tasks s)\<rparr>)"
  by (simp add: deleteTask_begin_def)

lemma deleteTask_Some:
  "taskToDelete s = Some t \<Longrightarrow>
   deleteTask rt r s =
     deleteTask_settle rt t r
       (s\<lparr>deletingTasks := insert (task_id t) (deletingTasks s), deleteError := None,
          tasks := filter (\<lambda>task. task_id task \<noteq> task_id t) (tasks s)\<rparr>)"
  by (simp add: deleteTask_def deleteTask_begin_Some)

lemma deletingTasks_settle:
  "deletingTasks (deleteTask_settle rt t r s) = deletingTasks s - {task_id t}"
  by (simp add: deleteTask_settle_def Let_def handleCloseDeleteModal_def
      split: fetch_result.split)

text \<open>
  Claim C9. When the delete handler runs with a task selected, the id of that task is no
  member of the "deleting" set once the request has settled, whatever its outcome: the
  handler run as a whole leaves the set as it was before, without the id, and the part of
  the handler after the request removes the id in whatever state it resumes.
\<close>

theorem delete_releases_id:
  assumes "taskToDelete s = Some t"
  shows "task_id t \<notin> deletingTasks (deleteTask rt r s)
    \<and> deletingTasks (deleteTask rt r s) = deletingTasks s - {task_id t}
    \<and> task_id t \<notin> deletingTasks (deleteTask_settle rt t r s')"
  using assms by (simp add: deleteTask_Some deletingTasks_settle)

lemma settle_not_found:
  "isNotFound err \<Longrightarrow>
   deleteTask_settle rt t (Rejected err) s =
     (handleCloseDeleteModal s)\<lparr>deletingTasks := deletingTasks s - {task_id t}\<rparr>"
  by (simp add: deleteTask_settle_def Let_def handleCloseDeleteModal_def)


text \<open>
  Claim C2. When the delete request of the selected task fails with an error that the
  handler takes for not-found (an \<^verbatim>\<open>Error\<close> whose message contains \<^verbatim>\<open>404\<close> or
  \<^verbatim>\<open>not found\<close>), the collection is left as the optimistic removal made it, without the
  task; the settling part of the handler does not touch the collection at all; and the
  confirmation dialog is closed, with no error stored and no alert shown.
\<close>

theorem delete_not_found_stays_removed:
  assumes "taskToDelete s = Some t" and "isNotFound err"
  shows "tasks (deleteTask rt (Rejected err) s)
           = filter (\<lambda>task. task_id task \<noteq> task_id t) (tasks s)
    \<and> t \<notin> set (tasks (deleteTask rt (Rejected err) s))
    \<and> tasks (deleteTask_settle rt t (Rejected err) s') = tasks s'
    \<and> showDeleteModal (deleteTask rt (Rejected err) s) = False
    \<and> deleteError (deleteTask rt (Rejected err) s) = None
    \<and> deleteAlertShown (deleteTask rt (Rejected err) s) = False"
  using assms
  by (simp add: deleteTask_Some settle_not_found handleCloseDeleteModal_def deleteAlertShown_def)






subsection \<open>Evaluating the worked inputs\<close>

lemmas ex_defs = delete_dialog_open_def loaded_controller_def loadTasks_settle_def
  initial_controller_def handleDeleteTask_def task_a_def task_b_def task_c_def example_task_def



theorem delete_releases_id_witness:
  "taskToDelete delete_dialog_open = Some task_b
   \<and> ''b'' \<notin> deletingTasks (deleteTask example_runtime (Resolved ()) delete_dialog_open)
   \<and> ''b'' \<notin> deletingTasks (deleteTask example_runtime (Rejected (ErrorInstance ''404'')) delete_dialog_open)
   \<and> ''b'' \<notin> deletingTasks (deleteTask example_runtime (Rejected NonError) delete_dialog_open)"
proof -
  have h: "taskToDelete delete_dialog_open = Some task_b"
    by (simp add: ex_defs)
  have i: "task_id task_b = ''b''"
    by (simp add: ex_defs)
  show ?thesis
    using h delete_releases_id [OF h, of example_runtime "Resolved ()"]
      delete_releases_id [OF h, of example_runtime "Rejected (ErrorInstance ''404'')"]
      delete_releases_id [OF h, of example_runtime "Rejected NonError"]
    unfolding i by blast
qed

theorem delete_not_found_stays_removed_witness:
  "taskToDelete delete_dialog_open = Some task_b
   \<and> isNotFound (ErrorInstance ''HTTP error 404: Task not found'')
   \<and> tasks (deleteTask example_runtime (Rejected (ErrorInstance ''HTTP error 404: Task not found''))
        delete_dialog_open) = [task_a, task_c]
   \<and> showDeleteModal (deleteTask example_runtime
        (Rejected (ErrorInstance ''HTTP error 404: Task not found'')) delete_dialog_open) = False"
proof -
  have h: "taskToDelete delete_dialog_open = Some task_b"
    by (simp add: ex_defs)
  have n: "isNotFound (ErrorInstance ''HTTP error 404: Task not found'')"
    by simp
  have f: "filter (\<lambda>task. task_id task \<noteq> task_id task_b) (tasks delete_dialog_open) = [task_a, task_c]"
    by (simp add: ex_defs)
  show ?thesis
    using h n delete_not_found_stays_removed [OF h n, of example_runtime]
    unfolding f by blast
qed



subsection \<open>Creating a task\<close>

lemma validateForm_ok:
  "trim (form_name (formData s)) \<noteq> [] \<Longrightarrow>
   validateForm s = (True, s\<lparr>validationErrors := Map.empty\<rparr>)"
  by (simp add: validateForm_def)

lemma validateForm_fails:
  "trim (form_name (formData s)) = [] \<Longrightarrow>
   validateForm s = (False, s\<lparr>validationErrors := [''name'' \<mapsto> ''Task name is required'']\<rparr>)"
  by (simp add: validateForm_def)

lemma createTask_begin_ok:
  "trim (form_name (formData s)) \<noteq> [] \<Longrightarrow>
   createTask_begin s =
     (Some \<lparr>payload_name = trim (form_name (formData s)),
            payload_priority = form_priority (formData s)\<rparr>,
      s\<lparr>validationErrors := Map.empty, isCreating := True, createError := None\<rparr>)"
  by (simp add: createTask_begin_def validateForm_ok)

lemma createTask_begin_fails:
  "trim (form_name (formData s)) = [] \<Longrightarrow>
   createTask_begin s =
     (None, s\<lparr>validationErrors := [''name'' \<mapsto> ''Task name is required'']\<rparr>)"
  by (simp add: createTask_begin_def validateForm_fails)

lemma createTask_ok:
  "trim (form_name (formData s)) \<noteq> [] \<Longrightarrow>
   createTask r s =
     createTask_settle r (s\<lparr>validationErrors := Map.empty, isCreating := True, createError := None\<rparr>)"
  by (simp add: createTask_def createTask_begin_ok)

lemma createTask_settle_success:
  "createTask_settle (Resolved (Some response)) s =
     s\<lparr>tasks := tasks s @ [response], showCreateModal := False,
       formData := \<lparr>form_name = [], form_priority = MEDIUM\<rparr>,
       validationErrors := Map.empty, createError := None, isCreating := False\<rparr>"
  by (simp add: createTask_settle_def handleCloseModal_def resetForm_def)


text \<open>
  Claim C5. When the create request resolves with a task, that task is the last element of
  the collection and the tasks that were there before it stand unchanged in front of it;
  the modal is closed and the form is back to its initial values, with no validation
  error and no create error. This holds for the handler run as a whole from a form whose
  name is not blank, and for its settling part in whatever state it resumes.
\<close>

theorem create_success_appends:
  assumes "trim (form_name (formData s)) \<noteq> []"
  shows "tasks (createTask (Resolved (Some response)) s) = tasks s @ [response]
    \<and> take (length (tasks s)) (tasks (createTask (Resolved (Some response)) s)) = tasks s
    \<and> showCreateModal (createTask (Resolved (Some response)) s) = False
    \<and> formData (createTask (Resolved (Some response)) s) = \<lparr>form_name = [], form_priority = MEDIUM\<rparr>
    \<and> validationErrors (createTask (Resolved (Some response)) s) = Map.empty
    \<and> createError (createTask (Resolved (Some response)) s) = None
    \<and> isCreating (createTask (Resolved (Some response)) s) = False
    \<and> tasks (createTask_settle (Resolved (Some response)) s') = tasks s' @ [response]
    \<and> showCreateModal (createTask_settle (Resolved (Some response)) s') = False
    \<and> formData (createTask_settle (Resolved (Some response)) s') = \<lparr>form_name = [], form_priority = MEDIUM\<rparr>"
  using assms by (simp add: createTask_ok createTask_settle_success)


subsection \<open>Trimming\<close>

lemma dropWhile_idem: "dropWhile P (dropWhile P xs) = dropWhile P xs"
  by (induction xs) simp_all

lemma dropWhile_rev_dropWhile:
  "dropWhile P (rev (dropWhile P (rev (dropWhile P xs)))) = rev (dropWhile P (rev (dropWhile P xs)))"
proof (cases "dropWhile P xs")
  case Nil
  show ?thesis unfolding Nil by simp
next
  case (Cons y ys)
  then have ny: "\<not> P y"
    using hd_dropWhile [of P xs] by simp
  have "dropWhile P (rev (y # ys)) = dropWhile P (rev ys) @ [y]"
    using ny by (simp add: dropWhile_append)
  then have "rev (dropWhile P (rev (y # ys))) = y # rev (dropWhile P (rev ys))"
    by simp
  with Cons ny show ?thesis by simp
qed

lemma trim_front: "dropWhile isWhitespace (trim s) = trim s"
  unfolding trim_def by (rule dropWhile_rev_dropWhile)

lemma trim_back: "dropWhile isWhitespace (rev (trim s)) = rev (trim s)"
  unfolding trim_def by (simp add: dropWhile_idem)

lemma trim_idem: "trim (trim s) = trim s"
proof -
  have "trim (trim s) = rev (dropWhile isWhitespace (rev (trim s)))"
    unfolding trim_def [of "trim s"] by (simp only: trim_front)
  then show ?thesis
    by (simp add: trim_back)
qed

subsection \<open>Runs of the controller\<close>

lemma run_induct_invariant:
  assumes "run rt es sys = Some sys'" and "I sys"
    and "\<And>e a b. I a \<Longrightarrow> fire rt e a = Some b \<Longrightarrow> I b"
  shows "I sys'"
  using assms(1,2)
proof (induction es arbitrary: sys)
  case Nil
  then show ?case by simp
next
  case (Cons e es)
  from Cons.prems(1) obtain mid where f: "fire rt e sys = Some mid"
    and r: "run rt es mid = Some sys'"
    by (auto split: option.splits)
  from assms(3) [OF Cons.prems(2) f] have "I mid" .
  with Cons.IH [OF r] show ?case .
qed

text \<open>What each handler does to the "deleting" set and to the form's name.\<close>

lemma deletingTasks_unchanged:
  "deletingTasks (loadTasks_settle lr s) = deletingTasks s"
  "deletingTasks (handleNewTask s) = deletingTasks s"
  "deletingTasks (handleCloseModal s) = deletingTasks s"
  "deletingTasks (handleInputChange inp s) = deletingTasks s"
  "deletingTasks (snd (createTask_begin s)) = deletingTasks s"
  "deletingTasks (createTask_settle cr s) = deletingTasks s"
  "deletingTasks (handleDeleteTask task s) = deletingTasks s"
  "deletingTasks (handleCloseDeleteModal s) = deletingTasks s"
  by (auto simp: loadTasks_settle_def handleNewTask_def handleCloseModal_def resetForm_def
      handleInputChange_def Let_def createTask_begin_def validateForm_def createTask_settle_def
      handleDeleteTask_def handleCloseDeleteModal_def
      split: fetch_result.split thrown.split option.split form_input.split)

lemma remove1_map_distinct:
  "distinct (map f xs) \<Longrightarrow> x \<in> set xs \<Longrightarrow>
   distinct (map f (remove1 x xs)) \<and> set (map f (remove1 x xs)) = set (map f xs) - {f x}"
proof (induction xs)
  case Nil
  then show ?case by simp
next
  case (Cons y ys)
  show ?case
  proof (cases "x = y")
    case True
    with Cons.prems show ?thesis by auto
  next
    case False
    with Cons.prems have "x \<in> set ys" and "distinct (map f ys)" and "f y \<notin> f ` set ys"
      by auto
    with Cons.IH False show ?thesis by auto
  qed
qed

lemma inflight_initial:
  "distinct (inFlightDeletes initial_system)
   \<and> deletingTasks (ui initial_system) = set (inFlightDeletes initial_system)"
  by (simp add: initial_system_def inFlightDeletes_def loadTasks_begin_def initial_controller_def)

lemma confirm_enabled:
  "\<not> deleteConfirmDisabled s \<Longrightarrow> \<exists>t. taskToDelete s = Some t \<and> task_id t \<notin> deletingTasks s"
  by (auto simp: deleteConfirmDisabled_def split: option.splits)

lemma fire_confirm_delete:
  assumes "fire rt ClickConfirmDelete sys = Some sys'"
  shows "\<exists>t. taskToDelete (ui sys) = Some t \<and> task_id t \<notin> deletingTasks (ui sys)
    \<and> sys' = sys\<lparr>ui := snd (deleteTask_begin (ui sys)), pendingDeletes := pendingDeletes sys @ [t]\<rparr>"
proof -
  from assms have en: "\<not> deleteConfirmDisabled (ui sys)"
    by (auto split: if_splits)
  then obtain t where t: "taskToDelete (ui sys) = Some t" "task_id t \<notin> deletingTasks (ui sys)"
    using confirm_enabled by blast
  with assms en show ?thesis
    by (simp add: deleteTask_begin_Some)
qed

lemma fire_other_pendingDeletes:
  assumes "fire rt e sys = Some sys'" and "e \<noteq> ClickConfirmDelete"
    and "\<And>captured r. e \<noteq> DeleteSettled captured r"
  shows "pendingDeletes sys' = pendingDeletes sys \<and> deletingTasks (ui sys') = deletingTasks (ui sys)"
proof (cases e)
  case ClickCreateTask
  with assms(1) have "pendingDeletes sys' = pendingDeletes sys"
    and "deletingTasks (ui sys') = deletingTasks (snd (createTask_begin (ui sys)))"
    by (auto split: if_splits prod.splits option.splits)
  then show ?thesis
    by (simp add: deletingTasks_unchanged)
qed (use assms in \<open>auto simp: deletingTasks_unchanged split: if_splits\<close>)

lemma inflight_fire:
  assumes "distinct (inFlightDeletes sys) \<and> deletingTasks (ui sys) = set (inFlightDeletes sys)"
    and "fire rt e sys = Some sys'"
  shows "distinct (inFlightDeletes sys') \<and> deletingTasks (ui sys') = set (inFlightDeletes sys')"
proof (cases e)
  case ClickConfirmDelete
  with assms(2) obtain t where t: "taskToDelete (ui sys) = Some t"
      "task_id t \<notin> deletingTasks (ui sys)"
      "sys' = sys\<lparr>ui := snd (deleteTask_begin (ui sys)), pendingDeletes := pendingDeletes sys @ [t]\<rparr>"
    using fire_confirm_delete by blast
  with assms(1) show ?thesis
    by (simp add: inFlightDeletes_def deleteTask_begin_Some)
next
  case (DeleteSettled captured r)
  with assms(2) have c: "captured \<in> set (pendingDeletes sys)"
    and s': "sys' = sys\<lparr>ui := deleteTask_settle rt captured r (ui sys),
                     pendingDeletes := remove1 captured (pendingDeletes sys)\<rparr>"
    by (auto split: if_splits)
  from assms(1) have d: "distinct (map task_id (pendingDeletes sys))"
    by (simp add: inFlightDeletes_def)
  from remove1_map_distinct [OF d c] assms(1) show ?thesis
    by (simp add: s' inFlightDeletes_def deletingTasks_settle)
qed (use assms fire_other_pendingDeletes [OF assms(2)] in \<open>simp_all add: inFlightDeletes_def\<close>)

lemma inflight_run:
  assumes "run rt es initial_system = Some sys"
  shows "distinct (inFlightDeletes sys) \<and> deletingTasks (ui sys) = set (inFlightDeletes sys)"
proof (rule run_induct_invariant [OF assms,
        where I = "\<lambda>a. distinct (inFlightDeletes a) \<and> deletingTasks (ui a) = set (inFlightDeletes a)"])
  show "distinct (inFlightDeletes initial_system)
      \<and> deletingTasks (ui initial_system) = set (inFlightDeletes initial_system)"
    by (rule inflight_initial)
next
  fix e a b
  assume "distinct (inFlightDeletes a) \<and> deletingTasks (ui a) = set (inFlightDeletes a)"
    and "fire rt e a = Some b"
  then show "distinct (inFlightDeletes b) \<and> deletingTasks (ui b) = set (inFlightDeletes b)"
    by (rule inflight_fire)
qed

text \<open>
  Claim C6. In every state the controller reaches, from its initial state by any sequence
  of events, no id has two delete requests under way, and the "deleting" set holds exactly
  the ids with a request under way. The controls of a task (the buttons of its row, and
  the two buttons of the dialog while it holds the task) are disabled exactly when its id
  is in the set. The Delete button of the dialog cannot be fired for an id in the set; when
  it fires, the id was not in the set and is the one request added; no other event adds a
  request. The mutations of the component that bear on one id are the deletes: its source
  has no update handler.
\<close>

theorem one_delete_in_flight_per_id:
  assumes "run rt es initial_system = Some sys"
  shows "distinct (inFlightDeletes sys)
    \<and> deletingTasks (ui sys) = set (inFlightDeletes sys)
    \<and> rowControlsDisabled (ui sys) task = (task_id task \<in> set (inFlightDeletes sys))
    \<and> (taskToDelete (ui sys) = Some t \<longrightarrow>
         deleteConfirmDisabled (ui sys) = (task_id t \<in> set (inFlightDeletes sys))
         \<and> deleteCancelDisabled (ui sys) = (task_id t \<in> set (inFlightDeletes sys)))
    \<and> (taskToDelete (ui sys) = Some t \<and> task_id t \<in> deletingTasks (ui sys) \<longrightarrow>
         fire rt ClickConfirmDelete sys = None)
    \<and> (fire rt ClickConfirmDelete sys = Some sys' \<longrightarrow>
         (\<exists>t'. taskToDelete (ui sys) = Some t' \<and> task_id t' \<notin> deletingTasks (ui sys)
            \<and> inFlightDeletes sys' = inFlightDeletes sys @ [task_id t']))
    \<and> (e \<noteq> ClickConfirmDelete \<and> fire rt e sys = Some sys'' \<longrightarrow>
         set (inFlightDeletes sys'') \<subseteq> set (inFlightDeletes sys))"
proof -
  note inv = inflight_run [OF assms]
  have c3: "rowControlsDisabled (ui sys) task = (task_id task \<in> set (inFlightDeletes sys))"
    using inv by (simp add: rowControlsDisabled_def)
  have c4: "taskToDelete (ui sys) = Some t \<longrightarrow>
         deleteConfirmDisabled (ui sys) = (task_id t \<in> set (inFlightDeletes sys))
         \<and> deleteCancelDisabled (ui sys) = (task_id t \<in> set (inFlightDeletes sys))"
    using inv by (simp add: deleteConfirmDisabled_def deleteCancelDisabled_def)
  have c5: "taskToDelete (ui sys) = Some t \<and> task_id t \<in> deletingTasks (ui sys) \<longrightarrow>
         fire rt ClickConfirmDelete sys = None"
    by (simp add: deleteConfirmDisabled_def)
  have c6: "fire rt ClickConfirmDelete sys = Some sys' \<longrightarrow>
         (\<exists>t'. taskToDelete (ui sys) = Some t' \<and> task_id t' \<notin> deletingTasks (ui sys)
            \<and> inFlightDeletes sys' = inFlightDeletes sys @ [task_id t'])"
  proof
    assume "fire rt ClickConfirmDelete sys = Some sys'"
    from fire_confirm_delete [OF this] show "\<exists>t'. taskToDelete (ui sys) = Some t'
        \<and> task_id t' \<notin> deletingTasks (ui sys)
        \<and> inFlightDeletes sys' = inFlightDeletes sys @ [task_id t']"
      by (auto simp: inFlightDeletes_def)
  qed
  have c7: "e \<noteq> ClickConfirmDelete \<and> fire rt e sys = Some sys'' \<longrightarrow>
         set (inFlightDeletes sys'') \<subseteq> set (inFlightDeletes sys)"
  proof
    assume a: "e \<noteq> ClickConfirmDelete \<and> fire rt e sys = Some sys''"
    show "set (inFlightDeletes sys'') \<subseteq> set (inFlightDeletes sys)"
    proof (cases "\<exists>captured r. e = DeleteSettled captured r")
      case True
      then obtain captured r where "e = DeleteSettled captured r"
        by blast
      with a have "pendingDeletes sys'' = remove1 captured (pendingDeletes sys)"
        by (auto split: if_splits)
      then show ?thesis
        using set_remove1_subset [of captured "pendingDeletes sys"]
        by (auto simp: inFlightDeletes_def)
    next
      case False
      with a fire_other_pendingDeletes [of rt e sys sys''] show ?thesis
        by (simp add: inFlightDeletes_def)
    qed
  qed
  from inv c3 c4 c5 c6 c7 show ?thesis
    by blast
qed

lemmas run_defs = example_events_def initial_system_def loadTasks_begin_def
  rowControlsDisabled_def deleteConfirmDisabled_def deleteTask_begin_def inFlightDeletes_def

theorem one_delete_in_flight_per_id_witness:
  "run example_runtime example_events initial_system \<noteq> None
   \<and> inFlightDeletes (the (run example_runtime example_events initial_system)) = [''b'']
   \<and> deletingTasks (ui (the (run example_runtime example_events initial_system))) = {''b''}
   \<and> fire example_runtime ClickConfirmDelete
        (the (run example_runtime example_events initial_system)) = None"
proof -
  let ?sys = "the (run example_runtime example_events initial_system)"
  have r: "run example_runtime example_events initial_system = Some ?sys"
    by (simp add: run_defs ex_defs)
  have v: "inFlightDeletes ?sys = [''b'']"
    by (simp add: run_defs ex_defs)
  have t: "taskToDelete (ui ?sys) = Some task_b"
    by (simp add: run_defs ex_defs)
  have i: "task_id task_b = ''b''"
    by (simp add: ex_defs)
  have d: "deletingTasks (ui ?sys) = set (inFlightDeletes ?sys)"
    using one_delete_in_flight_per_id [OF r] by blast
  have "taskToDelete (ui ?sys) = Some task_b \<and> task_id task_b \<in> deletingTasks (ui ?sys) \<longrightarrow>
      fire example_runtime ClickConfirmDelete ?sys = None"
    using one_delete_in_flight_per_id [OF r, of task_b task_b] by blast
  with t i d v have f: "fire example_runtime ClickConfirmDelete ?sys = None"
    by simp
  from r have n: "run example_runtime example_events initial_system \<noteq> None"
    by (metis option.distinct(1))
  from d v have d': "deletingTasks (ui ?sys) = {''b''}"
    by simp
  from n v d' f show ?thesis
    by blast
qed

lemma trim_example: "trim ''  Write spec '' = ''Write spec''"
  by (simp add: trim_def isWhitespace_def)


lemma trim_Nil: "trim [] = []"
  by (simp add: trim_def)

lemma form_filled_eval:
  "formData form_filled = \<lparr>form_name = ''Write spec'', form_priority = HIGH\<rparr>"
  "tasks form_filled = [task_a, task_b, task_c]"
  "showCreateModal form_filled"
  by (simp_all add: form_filled_def handleInputChange_def handleNewTask_def resetForm_def
      loaded_controller_def loadTasks_settle_def initial_controller_def trim_example)

theorem create_success_appends_witness:
  "trim (form_name (formData form_filled)) \<noteq> []
   \<and> tasks (createTask (Resolved (Some task_d)) form_filled) = [task_a, task_b, task_c, task_d]
   \<and> showCreateModal (createTask (Resolved (Some task_d)) form_filled) = False
   \<and> form_name (formData (createTask (Resolved (Some task_d)) form_filled)) = []"
proof -
  have h: "trim (form_name (formData form_filled)) \<noteq> []"
    by (simp add: form_filled_eval trim_def isWhitespace_def)
  show ?thesis
    using h create_success_appends [OF h, of task_d] by (simp add: form_filled_eval)
qed



subsection \<open>The create form holds trimmed text\<close>

lemma form_name_handlers:
  "form_name (formData (loadTasks_settle lr s)) = form_name (formData s)"
  "form_name (formData (handleNewTask s)) = []"
  "form_name (formData (handleCloseModal s)) = []"
  "form_name (formData (handleInputChange (NameInput raw) s)) = trim raw"
  "form_name (formData (handleInputChange (PriorityInput p) s)) = form_name (formData s)"
  "form_name (formData (snd (createTask_begin s))) = form_name (formData s)"
  "form_name (formData (handleDeleteTask task s)) = form_name (formData s)"
  "form_name (formData (handleCloseDeleteModal s)) = form_name (formData s)"
  "form_name (formData (deleteTask_settle rt captured dr s)) = form_name (formData s)"
  by (auto simp: loadTasks_settle_def handleNewTask_def handleCloseModal_def resetForm_def
      handleInputChange_def Let_def createTask_begin_def validateForm_def
      handleDeleteTask_def handleCloseDeleteModal_def deleteTask_settle_def
      split: fetch_result.split thrown.split option.split)

lemma form_name_deleteTask_begin:
  "form_name (formData (snd (deleteTask_begin s))) = form_name (formData s)"
  by (simp add: deleteTask_begin_def split: option.split)

lemma form_name_createTask_settle:
  "form_name (formData (createTask_settle cr s)) = form_name (formData s)
   \<or> form_name (formData (createTask_settle cr s)) = []"
  by (auto simp: createTask_settle_def handleCloseModal_def resetForm_def
      split: fetch_result.split thrown.split option.split)

lemma payload_trimmed:
  "fst (createTask_begin s) = Some p \<Longrightarrow>
   payload_name p = trim (form_name (formData s)) \<and> trim (payload_name p) = payload_name p"
  by (auto simp: createTask_begin_def validateForm_def Let_def trim_idem split: if_splits)

lemma trimmed_fire:
  assumes "trim (form_name (formData (ui sys))) = form_name (formData (ui sys))
      \<and> (\<forall>p \<in> set (pendingCreates sys). trim (payload_name p) = payload_name p)"
    and "fire rt e sys = Some sys'"
  shows "trim (form_name (formData (ui sys'))) = form_name (formData (ui sys'))
      \<and> (\<forall>p \<in> set (pendingCreates sys'). trim (payload_name p) = payload_name p)"
proof (cases e)
  case (ChangeInput inp)
  with assms show ?thesis
    by (cases inp) (auto simp: form_name_handlers trim_idem)
next
  case ClickCreateTask
  with assms(2) have en: "\<not> createSubmitDisabled (ui sys)"
    by (auto split: if_splits)
  obtain q s1 where b: "createTask_begin (ui sys) = (q, s1)"
    by (cases "createTask_begin (ui sys)")
  then have n: "form_name (formData s1) = form_name (formData (ui sys))"
    using form_name_handlers(6) [of "ui sys"] by simp
  show ?thesis
  proof (cases q)
    case None
    with assms ClickCreateTask en b n show ?thesis by auto
  next
    case (Some payload)
    with b have "trim (payload_name payload) = payload_name payload"
      using payload_trimmed [of "ui sys" payload] by (simp add: trim_idem)
    with assms ClickCreateTask en b n Some show ?thesis by auto
  qed
next
  case (CreateSettled payload r)
  with assms(2) have s': "ui sys' = createTask_settle r (ui sys)"
      "pendingCreates sys' = remove1 payload (pendingCreates sys)"
    by (auto split: if_splits)
  have "set (pendingCreates sys') \<subseteq> set (pendingCreates sys)"
    unfolding s' by (rule set_remove1_subset)
  with assms(1) s' form_name_createTask_settle [of r "ui sys"] show ?thesis
    by (auto simp: trim_Nil)
next
  case ClickConfirmDelete
  with assms(2) have "pendingCreates sys' = pendingCreates sys"
    and "ui sys' = snd (deleteTask_begin (ui sys))"
    by (auto split: if_splits prod.splits option.splits)
  with assms(1) show ?thesis
    by (simp add: form_name_deleteTask_begin)
qed (use assms in \<open>auto simp: form_name_handlers trim_Nil split: if_splits\<close>)

lemma trimmed_initial:
  "trim (form_name (formData (ui initial_system))) = form_name (formData (ui initial_system))
   \<and> (\<forall>p \<in> set (pendingCreates initial_system). trim (payload_name p) = payload_name p)"
  by (simp add: initial_system_def loadTasks_begin_def initial_controller_def trim_Nil)

lemma trimmed_run:
  assumes "run rt es initial_system = Some sys"
  shows "trim (form_name (formData (ui sys))) = form_name (formData (ui sys))
      \<and> (\<forall>p \<in> set (pendingCreates sys). trim (payload_name p) = payload_name p)"
proof (rule run_induct_invariant [OF assms,
        where I = "\<lambda>a. trim (form_name (formData (ui a))) = form_name (formData (ui a))
          \<and> (\<forall>p \<in> set (pendingCreates a). trim (payload_name p) = payload_name p)"])
  show "trim (form_name (formData (ui initial_system))) = form_name (formData (ui initial_system))
      \<and> (\<forall>p \<in> set (pendingCreates initial_system). trim (payload_name p) = payload_name p)"
    by (rule trimmed_initial)
next
  fix e a b
  assume "trim (form_name (formData (ui a))) = form_name (formData (ui a))
      \<and> (\<forall>p \<in> set (pendingCreates a). trim (payload_name p) = payload_name p)"
    and "fire rt e a = Some b"
  then show "trim (form_name (formData (ui b))) = form_name (formData (ui b))
      \<and> (\<forall>p \<in> set (pendingCreates b). trim (payload_name p) = payload_name p)"
    by (rule trimmed_fire)
qed

text \<open>
  Claim C10. An input event of the name field stores the trim of the text typed. In every
  state the controller reaches the stored name equals its own trim and has no white space
  to drop at either end; the name of every request under way, and of the payload the
  handler builds in any state, equals its own trim; and the submit button is disabled, so
  that the event cannot be fired, whenever the stored name trims to the empty string.
\<close>

theorem form_values_stored_trimmed:
  assumes "run rt es initial_system = Some sys"
  shows "form_name (formData (handleInputChange (NameInput raw) s)) = trim raw
    \<and> trim (form_name (formData (ui sys))) = form_name (formData (ui sys))
    \<and> dropWhile isWhitespace (form_name (formData (ui sys))) = form_name (formData (ui sys))
    \<and> dropWhile isWhitespace (rev (form_name (formData (ui sys)))) = rev (form_name (formData (ui sys)))
    \<and> (\<forall>p \<in> set (pendingCreates sys). trim (payload_name p) = payload_name p)
    \<and> (fst (createTask_begin s) = Some payload \<longrightarrow>
         payload_name payload = trim (form_name (formData s))
         \<and> trim (payload_name payload) = payload_name payload)
    \<and> (trim (form_name (formData s)) = [] \<longrightarrow> createSubmitDisabled s)
    \<and> (trim (form_name (formData (ui sys))) = [] \<longrightarrow> fire rt ClickCreateTask sys = None)"
proof -
  note inv = trimmed_run [OF assms]
  have c1: "form_name (formData (handleInputChange (NameInput raw) s)) = trim raw"
    by (rule form_name_handlers)
  have c3: "dropWhile isWhitespace (form_name (formData (ui sys))) = form_name (formData (ui sys))"
    using inv trim_front [of "form_name (formData (ui sys))"] by simp
  have c4: "dropWhile isWhitespace (rev (form_name (formData (ui sys))))
      = rev (form_name (formData (ui sys)))"
    using inv trim_back [of "form_name (formData (ui sys))"] by simp
  have c6: "fst (createTask_begin s) = Some payload \<longrightarrow>
         payload_name payload = trim (form_name (formData s))
         \<and> trim (payload_name payload) = payload_name payload"
    using payload_trimmed by blast
  have c7: "trim (form_name (formData s)) = [] \<longrightarrow> createSubmitDisabled s"
    by (simp add: createSubmitDisabled_def)
  have c8: "trim (form_name (formData (ui sys))) = [] \<longrightarrow> fire rt ClickCreateTask sys = None"
    by (simp add: createSubmitDisabled_def)
  from inv c1 c3 c4 c6 c7 c8 show ?thesis
    by blast
qed

lemmas create_run_defs = create_events_def initial_system_def loadTasks_begin_def
  handleNewTask_def resetForm_def handleInputChange_def createSubmitDisabled_def
  createTask_begin_def validateForm_def trim_example

theorem form_values_stored_trimmed_witness:
  "run example_runtime create_events initial_system \<noteq> None
   \<and> form_name (formData (ui (the (run example_runtime create_events initial_system))))
       = ''Write spec''
   \<and> map payload_name (pendingCreates (the (run example_runtime create_events initial_system)))
       = [''Write spec'']
   \<and> trim ''Write spec'' = ''Write spec''"
proof -
  let ?sys = "the (run example_runtime create_events initial_system)"
  have tr: "trim ''Write spec'' = ''Write spec''"
    by (simp add: trim_def isWhitespace_def)
  have r: "run example_runtime create_events initial_system = Some ?sys"
    by (simp add: create_run_defs ex_defs tr)
  have v: "form_name (formData (ui ?sys)) = ''Write spec''"
    by (simp add: create_run_defs ex_defs tr)
  have p: "map payload_name (pendingCreates ?sys) = [''Write spec'']"
    by (simp add: create_run_defs ex_defs tr)
  have "trim (form_name (formData (ui ?sys))) = form_name (formData (ui ?sys))"
    using form_values_stored_trimmed [OF r] by blast
  then have t: "trim ''Write spec'' = ''Write spec''"
    unfolding v .
  from r have n: "run example_runtime create_events initial_system \<noteq> None"
    by (metis option.distinct(1))
  from n v p t show ?thesis
    by blast
qed

subsection \<open>The optimistic update\<close>

lemma task_id_apply_patch: "task_id (apply_patch p t) = task_id t"
  by (simp add: apply_patch_def)

lemma find_by_id:
  "distinct (map task_id ts) \<Longrightarrow> t \<in> set ts \<Longrightarrow> find (\<lambda>x. task_id x = task_id t) ts = Some t"
proof (induction ts)
  case Nil
  then show ?case by simp
next
  case (Cons y ys)
  then show ?case by (cases "t = y") auto
qed

lemma restore_by_id:
  assumes "distinct (map task_id ts)" and "t \<in> set ts"
  shows "map (\<lambda>x. if task_id x = task_id t then t else x)
           (map (\<lambda>x. if task_id x = task_id t then apply_patch p x else x) ts) = ts"
proof -
  have "\<And>x. x \<in> set ts \<Longrightarrow> task_id x = task_id t \<Longrightarrow> x = t"
    using assms by (meson distinct_map inj_onD)
  then have "\<And>x. x \<in> set ts \<Longrightarrow>
      ((\<lambda>x. if task_id x = task_id t then t else x)
        \<circ> (\<lambda>x. if task_id x = task_id t then apply_patch p x else x)) x = x"
    by (auto simp: task_id_apply_patch)
  then show ?thesis
    unfolding map_map by (simp add: map_idI)
qed

lemma updatingTasks_updateTask:
  "updatingTasks (updateTask taskId p r c) = updatingTasks c - {taskId}"
  by (simp add: updateTask_def updateTask_begin_def updateTask_settle_def
      split: update_outcome.split)

text \<open>
  Claim C1. A record of a collection with distinct ids is updated with any patch: the
  snapshot taken is the record, and while the request is under way the local copy is the
  patched record and the id is in the "updating" set. When the request fails or throws,
  the collection is again what it was before the mutation, so the record shows the value
  it had in every field, the error message is stored, and the id is out of the set. The id
  is out of the set after every outcome. Resumed in any state, the settling part puts the
  snapshot back in the place of the record with its id, stores the message and releases
  the id.
\<close>

theorem update_rollback_restores:
  assumes "distinct (map task_id (local_tasks c))" and "t \<in> set (local_tasks c)"
    and "r = UpdateFailed message \<or> r = UpdateException message"
  shows "fst (updateTask_begin (task_id t) p c) = Some t
    \<and> find (\<lambda>x. task_id x = task_id t) (local_tasks (snd (updateTask_begin (task_id t) p c)))
         = Some (apply_patch p t)
    \<and> task_id t \<in> updatingTasks (snd (updateTask_begin (task_id t) p c))
    \<and> local_tasks (updateTask (task_id t) p r c) = local_tasks c
    \<and> find (\<lambda>x. task_id x = task_id t) (local_tasks (updateTask (task_id t) p r c)) = Some t
    \<and> updateError (updateTask (task_id t) p r c) = Some message
    \<and> task_id t \<notin> updatingTasks (updateTask (task_id t) p r' c)
    \<and> local_tasks (updateTask_settle (task_id t) (Some t) r c')
         = map (\<lambda>x. if task_id x = task_id t then t else x) (local_tasks c')
    \<and> updateError (updateTask_settle (task_id t) (Some t) r c') = Some message
    \<and> task_id t \<notin> updatingTasks (updateTask_settle (task_id t) snapshot r' c')"
proof -
  let ?i = "task_id t"
  let ?c1 = "snd (updateTask_begin ?i p c)"
  have snap: "find (\<lambda>x. task_id x = ?i) (local_tasks c) = Some t"
    using assms(1,2) by (rule find_by_id)
  have p0: "fst (updateTask_begin ?i p c) = Some t"
    by (simp add: updateTask_begin_def snap)
  have lt1: "local_tasks ?c1
      = map (\<lambda>x. if task_id x = ?i then apply_patch p x else x) (local_tasks c)"
    by (simp add: updateTask_begin_def)
  have d1: "distinct (map task_id (local_tasks ?c1))"
    unfolding lt1 map_map using assms(1)
    by (simp add: comp_def task_id_apply_patch if_distrib [of task_id] cong: if_cong)
  have m1: "apply_patch p t \<in> set (local_tasks ?c1)"
    unfolding lt1 using assms(2) by force
  have p1: "find (\<lambda>x. task_id x = ?i) (local_tasks ?c1) = Some (apply_patch p t)"
    using find_by_id [OF d1 m1] by (simp add: task_id_apply_patch)
  have p2: "?i \<in> updatingTasks ?c1"
    by (simp add: updateTask_begin_def)
  have p3: "local_tasks (updateTask ?i p r c) = local_tasks c"
    using assms(3) restore_by_id [OF assms(1,2), of p]
    by (auto simp: updateTask_def updateTask_begin_def updateTask_settle_def put_record_def snap)
  have p6: "updateError (updateTask ?i p r c) = Some message"
    using assms(3)
    by (auto simp: updateTask_def updateTask_begin_def updateTask_settle_def)
  have p7: "?i \<notin> updatingTasks (updateTask ?i p r' c)"
    by (simp add: updatingTasks_updateTask)
  have q1: "local_tasks (updateTask_settle ?i (Some t) r c')
      = map (\<lambda>x. if task_id x = ?i then t else x) (local_tasks c')"
    and q2: "updateError (updateTask_settle ?i (Some t) r c') = Some message"
    using assms(3) by (auto simp: updateTask_settle_def put_record_def)
  have q3: "?i \<notin> updatingTasks (updateTask_settle ?i snapshot r' c')"
    by (simp add: updateTask_settle_def split: update_outcome.split)
  from p0 p1 p2 p3 snap p6 p7 q1 q2 q3 show ?thesis
    by simp
qed

lemmas update_defs = example_update_controller_def raise_priority_def

theorem update_rollback_restores_witness:
  "distinct (map task_id (local_tasks example_update_controller))
   \<and> task_a \<in> set (local_tasks example_update_controller)
   \<and> priority task_a = LOW
   \<and> map_option priority
        (find (\<lambda>x. task_id x = ''a'')
          (local_tasks (snd (updateTask_begin ''a'' raise_priority example_update_controller))))
       = Some HIGH
   \<and> local_tasks (updateTask ''a'' raise_priority (UpdateFailed ''HTTP error 500'')
        example_update_controller) = [task_a, task_b, task_c]
   \<and> map_option priority
        (find (\<lambda>x. task_id x = ''a'')
          (local_tasks (updateTask ''a'' raise_priority (UpdateFailed ''HTTP error 500'')
             example_update_controller)))
       = Some LOW
   \<and> updateError (updateTask ''a'' raise_priority (UpdateFailed ''HTTP error 500'')
        example_update_controller) = Some ''HTTP error 500''
   \<and> ''a'' \<notin> updatingTasks (updateTask ''a'' raise_priority (UpdateFailed ''HTTP error 500'')
        example_update_controller)"
proof -
  have h1: "distinct (map task_id (local_tasks example_update_controller))"
    by (simp add: update_defs ex_defs)
  have h2: "task_a \<in> set (local_tasks example_update_controller)"
    by (simp add: update_defs)
  have h3: "priority task_a = LOW"
    by (simp add: ex_defs)
  have h4: "UpdateFailed ''HTTP error 500'' = UpdateFailed ''HTTP error 500''
      \<or> UpdateFailed ''HTTP error 500'' = UpdateException ''HTTP error 500''"
    by simp
  have i: "task_id task_a = ''a''"
    by (simp add: ex_defs)
  have l: "local_tasks example_update_controller = [task_a, task_b, task_c]"
    by (simp add: update_defs)
  have hi: "priority (apply_patch raise_priority task_a) = HIGH"
    by (simp add: apply_patch_def raise_priority_def)
  note T = update_rollback_restores [OF h1 h2 h4, of raise_priority, unfolded i l]
  from T have "find (\<lambda>x. task_id x = ''a'')
      (local_tasks (snd (updateTask_begin ''a'' raise_priority example_update_controller)))
      = Some (apply_patch raise_priority task_a)"
    by blast
  with hi have w1: "map_option priority (find (\<lambda>x. task_id x = ''a'')
      (local_tasks (snd (updateTask_begin ''a'' raise_priority example_update_controller))))
      = Some HIGH"
    by simp
  from T have w2: "local_tasks (updateTask ''a'' raise_priority (UpdateFailed ''HTTP error 500'')
      example_update_controller) = [task_a, task_b, task_c]"
    by blast
  from T have "find (\<lambda>x. task_id x = ''a'')
      (local_tasks (updateTask ''a'' raise_priority (UpdateFailed ''HTTP error 500'')
         example_update_controller)) = Some task_a"
    by blast
  with h3 have w3: "map_option priority (find (\<lambda>x. task_id x = ''a'')
      (local_tasks (updateTask ''a'' raise_priority (UpdateFailed ''HTTP error 500'')
         example_update_controller))) = Some LOW"
    by simp
  from T have w4: "updateError (updateTask ''a'' raise_priority (UpdateFailed ''HTTP error 500'')
      example_update_controller) = Some ''HTTP error 500''"
    by blast
  from T have w5: "''a'' \<notin> updatingTasks (updateTask ''a'' raise_priority
      (UpdateFailed ''HTTP error 500'') example_update_controller)"
    by blast
  from h1 h2 h3 w1 w2 w3 w4 w5 show ?thesis
    by blast
qed

subsection \<open>The create operation\<close>

lemma length_le_foldr_max:
  "x \<in> set ids \<Longrightarrow> length x \<le> foldr max (map length ids) 0"
  by (induction ids) auto

lemma generate_id_fresh: "generate_id ids \<notin> set ids"
proof
  assume "generate_id ids \<in> set ids"
  then have "length (generate_id ids) \<le> foldr max (map length ids) 0"
    by (rule length_le_foldr_max)
  then show False
    by (simp add: generate_id_def)
qed

text \<open>
  Claim C7. In the component, a name that is empty after trimming makes \<^verbatim>\<open>createTask\<close>
  return before it issues a request, with the validation error stored and the submit
  button disabled; otherwise the payload carries the trimmed name and the priority of the
  form, which is MEDIUM unless the user chose another. In the service, a missing name or one
  empty after trimming fails with ValidationError; every other input gives a task of status
  UPCOMING, of the priority provided or MEDIUM, with an id that no stored task has.
\<close>

theorem create_validates_name_and_defaults:
  "(trim (form_name (formData s)) = [] \<longrightarrow>
      fst (createTask_begin s) = None
      \<and> validationErrors (snd (createTask_begin s)) ''name'' = Some ''Task name is required''
      \<and> tasks (snd (createTask_begin s)) = tasks s
      \<and> createSubmitDisabled s)
   \<and> (trim (form_name (formData s)) \<noteq> [] \<longrightarrow>
        fst (createTask_begin s)
          = Some \<lparr>payload_name = trim (form_name (formData s)),
                  payload_priority = form_priority (formData s)\<rparr>)
   \<and> form_priority (formData (handleNewTask s)) = MEDIUM
   \<and> (input_name inp = None \<or> (\<exists>n. input_name inp = Some n \<and> trim n = []) \<longrightarrow>
        service_create now store inp = Inl ValidationError)
   \<and> (input_name inp = Some n \<and> trim n \<noteq> [] \<longrightarrow>
        (\<exists>task. service_create now store inp = Inr (task, store @ [task])
           \<and> t_name task = n
           \<and> t_status task = UPCOMING
           \<and> t_priority task = (case input_priority inp of None \<Rightarrow> MEDIUM | Some p \<Rightarrow> p)
           \<and> t_id task \<notin> set (map t_id store)))"
proof -
  have a: "trim (form_name (formData s)) = [] \<longrightarrow>
      fst (createTask_begin s) = None
      \<and> validationErrors (snd (createTask_begin s)) ''name'' = Some ''Task name is required''
      \<and> tasks (snd (createTask_begin s)) = tasks s
      \<and> createSubmitDisabled s"
    by (simp add: createTask_begin_fails createSubmitDisabled_def)
  have a': "trim (form_name (formData s)) \<noteq> [] \<longrightarrow>
        fst (createTask_begin s)
          = Some \<lparr>payload_name = trim (form_name (formData s)),
                  payload_priority = form_priority (formData s)\<rparr>"
    by (simp add: createTask_begin_ok)
  have a'': "form_priority (formData (handleNewTask s)) = MEDIUM"
    by (simp add: handleNewTask_def resetForm_def)
  have b: "input_name inp = None \<or> (\<exists>n. input_name inp = Some n \<and> trim n = []) \<longrightarrow>
        service_create now store inp = Inl ValidationError"
    by (auto simp: service_create_def)
  have c: "input_name inp = Some n \<and> trim n \<noteq> [] \<longrightarrow>
        (\<exists>task. service_create now store inp = Inr (task, store @ [task])
           \<and> t_name task = n
           \<and> t_status task = UPCOMING
           \<and> t_priority task = (case input_priority inp of None \<Rightarrow> MEDIUM | Some p \<Rightarrow> p)
           \<and> t_id task \<notin> set (map t_id store))"
    using generate_id_fresh [of "map t_id store"]
    by (simp add: service_create_def Let_def)
  from a a' a'' b c show ?thesis
    by blast
qed

theorem create_validates_name_and_defaults_witness:
  "trim (form_name (formData (handleNewTask loaded_controller))) = []
   \<and> fst (createTask_begin (handleNewTask loaded_controller)) = None
   \<and> service_create ''4'' [] (example_input\<lparr>input_name := Some ''  ''\<rparr>) = Inl ValidationError
   \<and> (\<exists>task. service_create ''4'' [] example_input = Inr (task, [task])
        \<and> t_status task = UPCOMING \<and> t_priority task = HIGH)"
proof -
  have h1: "trim (form_name (formData (handleNewTask loaded_controller))) = []"
    by (simp add: handleNewTask_def resetForm_def trim_Nil)
  have h2: "input_name (example_input\<lparr>input_name := Some ''  ''\<rparr>) = None
      \<or> (\<exists>n. input_name (example_input\<lparr>input_name := Some ''  ''\<rparr>) = Some n \<and> trim n = [])"
    by (simp add: trim_def isWhitespace_def)
  have h3: "input_name example_input = Some ''Write spec'' \<and> trim ''Write spec'' \<noteq> []"
    by (simp add: example_input_def trim_def isWhitespace_def)
  have p: "input_priority example_input = Some HIGH"
    by (simp add: example_input_def)
  have w1: "fst (createTask_begin (handleNewTask loaded_controller)) = None"
    using h1 create_validates_name_and_defaults [where s = "handleNewTask loaded_controller"] by blast
  have w2: "service_create ''4'' [] (example_input\<lparr>input_name := Some ''  ''\<rparr>) = Inl ValidationError"
    using h2 create_validates_name_and_defaults
      [where inp = "example_input\<lparr>input_name := Some ''  ''\<rparr>" and now = "''4''" and store = "[]"]
    by blast
  have w3: "\<exists>task. service_create ''4'' [] example_input = Inr (task, [task])
        \<and> t_status task = UPCOMING \<and> t_priority task = HIGH"
    using h3 p create_validates_name_and_defaults
      [where inp = example_input and n = "''Write spec''" and now = "''4''" and store = "[]"]
    by auto
  from h1 w1 w2 w3 show ?thesis
    by blast
qed

end
